theory Spec2Isabelle
  imports
    Main
    "HOL-Library.Char_ord"
    "HOL-Library.List_Lexorder"
    "HOL-Library.Product_Lexorder"
    "HOL-Library.AList"
    "HOL-Library.Multiset"
begin

section \<open>The relational schema (shared/schema.ts)\<close>

text \<open>
  Every table of \<^verbatim>\<open>shared/schema.ts\<close> is a list of rows, in the order in which
  a scan of the table yields them.  A \<^verbatim>\<open>uuid\<close> column is a string, a
  \<^verbatim>\<open>timestamp\<close> an integer (a point on the time line), a nullable
  \<^verbatim>\<open>text\<close> column a \<open>string option\<close>.  Field names carry the name of their table,
  since the tables share column names (\<^verbatim>\<open>id\<close>, \<^verbatim>\<open>createdAt\<close>, ...).
\<close>

type_synonym uuid = string
type_synonym timestamp = int

record user =
  user_id :: uuid
  user_username :: string
  user_email :: string
  user_password :: string
  user_firstName :: string
  user_lastName :: string
  user_role :: string
  user_isVerified :: bool
  user_createdAt :: timestamp

record club =
  club_id :: uuid
  club_name :: string
  club_description :: "string option"
  club_icon :: string
  club_createdAt :: timestamp

record position =
  position_id :: uuid
  position_name :: string
  position_clubId :: uuid
  position_description :: "string option"
  position_createdAt :: timestamp

record election =
  election_id :: uuid
  election_clubId :: uuid
  election_title :: string
  election_description :: "string option"
  election_startDate :: timestamp
  election_endDate :: timestamp
  election_isActive :: bool
  election_createdAt :: timestamp

record candidate =
  candidate_id :: uuid
  candidate_userId :: uuid
  candidate_electionId :: uuid
  candidate_positionId :: uuid
  candidate_manifesto :: "string option"
  candidate_isApproved :: bool
  candidate_createdAt :: timestamp

record vote =
  vote_id :: uuid
  vote_voterId :: uuid
  vote_candidateId :: uuid
  vote_electionId :: uuid
  vote_positionId :: uuid
  vote_createdAt :: timestamp

text \<open>\<^verbatim>\<open>InsertVote\<close>: the insert schema of \<^verbatim>\<open>votes\<close> omits \<^verbatim>\<open>id\<close> and
  \<^verbatim>\<open>createdAt\<close>, which the database fills in.\<close>

record insertVote =
  iv_voterId :: uuid
  iv_candidateId :: uuid
  iv_electionId :: uuid
  iv_positionId :: uuid

record database =
  users :: "user list"
  clubs :: "club list"
  positions :: "position list"
  elections :: "election list"
  candidates :: "candidate list"
  votes :: "vote list"

text \<open>The constraints the schema declares: \<^verbatim>\<open>primaryKey()\<close> on every
  \<^verbatim>\<open>id\<close>, and one \<^verbatim>\<open>references(...)\<close> per foreign key.\<close>

definition primary_keys :: "database \<Rightarrow> bool" where
  "primary_keys db \<longleftrightarrow>
     distinct (map user_id (users db)) \<and>
     distinct (map club_id (clubs db)) \<and>
     distinct (map position_id (positions db)) \<and>
     distinct (map election_id (elections db)) \<and>
     distinct (map candidate_id (candidates db)) \<and>
     distinct (map vote_id (votes db))"

definition foreign_keys :: "database \<Rightarrow> bool" where
  "foreign_keys db \<longleftrightarrow>
     list_all (\<lambda>p. position_clubId p \<in> set (map club_id (clubs db))) (positions db) \<and>
     list_all (\<lambda>e. election_clubId e \<in> set (map club_id (clubs db))) (elections db) \<and>
     list_all (\<lambda>c. candidate_userId c \<in> set (map user_id (users db)) \<and>
                   candidate_electionId c \<in> set (map election_id (elections db)) \<and>
                   candidate_positionId c \<in> set (map position_id (positions db)))
       (candidates db) \<and>
     list_all (\<lambda>v. vote_voterId v \<in> set (map user_id (users db)) \<and>
                   vote_candidateId v \<in> set (map candidate_id (candidates db)) \<and>
                   vote_electionId v \<in> set (map election_id (elections db)) \<and>
                   vote_positionId v \<in> set (map position_id (positions db)))
       (votes db)"

section \<open>The storage layer (server/storage.ts, class DatabaseStorage)\<close>

subsection \<open>Positions and elections\<close>

definition getPositionsByClub :: "database \<Rightarrow> uuid \<Rightarrow> position list" where
  "getPositionsByClub db clubId = filter (\<lambda>p. position_clubId p = clubId) (positions db)"

text \<open>The \<^verbatim>\<open>where\<close> clause of \<^verbatim>\<open>getActiveElections\<close>:
  \<^verbatim>\<open>is_active = true AND end_date > now()\<close>.  The start date does not occur in it.\<close>

definition election_live :: "timestamp \<Rightarrow> election \<Rightarrow> bool" where
  "election_live now e \<longleftrightarrow> election_isActive e = True \<and> election_endDate e > now"

record election_with_club =
  ec_election :: election
  ec_club :: club
  ec_positions :: "position list"

text \<open>\<^verbatim>\<open>getActiveElections\<close>: elections inner-joined with their club, filtered by
  the liveness condition, ordered by end date; then one \<^verbatim>\<open>getPositionsByClub\<close>
  per row.  The spread \<^verbatim>\<open>...election\<close> is the field \<open>ec_election\<close>.\<close>

definition getActiveElections :: "database \<Rightarrow> timestamp \<Rightarrow> election_with_club list" where
  "getActiveElections db now =
     (let activeElections =
            sort_key (\<lambda>(e, c). election_endDate e)
              [(e, c). e \<leftarrow> elections db, c \<leftarrow> clubs db,
                        election_clubId e = club_id c, election_live now e]
      in map (\<lambda>(e, c). \<lparr>ec_election = e, ec_club = c,
                          ec_positions = getPositionsByClub db (club_id c)\<rparr>)
           activeElections)"

subsection \<open>Candidates\<close>

record candidate_row =
  candidate :: candidate
  user :: user
  position :: position

text \<open>\<^verbatim>\<open>getCandidatesByElection\<close>: candidates inner-joined with users and
  positions, restricted to the election and to \<^verbatim>\<open>is_approved = true\<close>.  The spread
  \<^verbatim>\<open>...candidate\<close> of the result is the field \<open>candidate\<close>.

  \<open>roster_rows\<close> are the rows the query selects.  The query has no
  \<^verbatim>\<open>orderBy\<close>, so the order in which the database returns them is its own: a
  list is an answer of \<^verbatim>\<open>getCandidatesByElection\<close> exactly when it holds the
  selected rows, each as often as it is selected, in any order.\<close>

definition roster_rows :: "database \<Rightarrow> uuid \<Rightarrow> candidate_row list" where
  "roster_rows db electionId =
     [\<lparr>candidate = c, user = u, position = p\<rparr>.
        c \<leftarrow> candidates db,
        u \<leftarrow> users db, candidate_userId c = user_id u,
        p \<leftarrow> positions db, candidate_positionId c = position_id p,
        candidate_electionId c = electionId \<and> candidate_isApproved c = True]"

definition getCandidatesByElection :: "database \<Rightarrow> uuid \<Rightarrow> candidate_row list \<Rightarrow> bool" where
  "getCandidatesByElection db electionId rs \<longleftrightarrow> mset rs = mset (roster_rows db electionId)"

subsection \<open>Votes\<close>

text \<open>\<^verbatim>\<open>hasUserVoted\<close> runs one \<^verbatim>\<open>select count(*)\<close> over \<^verbatim>\<open>votes\<close>
  and compares the count with zero.  Storage operations on votes pass the database
  through: the result is paired with the database after the call.\<close>

definition hasUserVoted :: "database \<Rightarrow> uuid \<Rightarrow> uuid \<Rightarrow> uuid \<Rightarrow> bool \<times> database" where
  "hasUserVoted db userId electionId positionId =
     (let result_count =
            length (filter (\<lambda>v. vote_voterId v = userId \<and>
                                vote_electionId v = electionId \<and>
                                vote_positionId v = positionId) (votes db))
      in (result_count > 0, db))"

text \<open>\<^verbatim>\<open>castVote\<close> is a bare \<^verbatim>\<open>insert ... returning\<close>.  The database
  generates the row's \<^verbatim>\<open>id\<close> and \<^verbatim>\<open>createdAt\<close> (here the arguments
  \<open>newId\<close> and \<open>now\<close>), and rejects the row when it breaks the primary key or one
  of the four foreign keys of \<^verbatim>\<open>votes\<close>; the rejected insert throws.\<close>

datatype storage_error = ConstraintViolation

definition castVote ::
  "database \<Rightarrow> uuid \<Rightarrow> timestamp \<Rightarrow> insertVote \<Rightarrow> (storage_error + vote) \<times> database" where
  "castVote db newId now insertVote =
     (if newId \<in> set (map vote_id (votes db)) \<or>
         iv_voterId insertVote \<notin> set (map user_id (users db)) \<or>
         iv_candidateId insertVote \<notin> set (map candidate_id (candidates db)) \<or>
         iv_electionId insertVote \<notin> set (map election_id (elections db)) \<or>
         iv_positionId insertVote \<notin> set (map position_id (positions db))
      then (Inl ConstraintViolation, db)
      else
        (let vote = \<lparr>vote_id = newId,
                     vote_voterId = iv_voterId insertVote,
                     vote_candidateId = iv_candidateId insertVote,
                     vote_electionId = iv_electionId insertVote,
                     vote_positionId = iv_positionId insertVote,
                     vote_createdAt = now\<rparr>
         in (Inr vote, db\<lparr>votes := votes db @ [vote]\<rparr>)))"

definition getVoteCount :: "database \<Rightarrow> uuid \<Rightarrow> nat" where
  "getVoteCount db candidateId =
     length (filter (\<lambda>v. vote_candidateId v = candidateId) (votes db))"

text \<open>\<^verbatim>\<open>getElectionResults\<close>, evaluated clause by clause.

  \<^item> \<^verbatim>\<open>from candidates innerJoin users innerJoin positions\<close>: \<open>results_from\<close>;
  \<^item> \<^verbatim>\<open>leftJoin votes on votes.candidate_id = candidates.id\<close>: a row with no
    matching vote is kept once, with the vote's columns null (\<open>None\<close>);
  \<^item> \<^verbatim>\<open>where candidates.election_id = electionId\<close>;
  \<^item> \<^verbatim>\<open>groupBy candidates.id, users.id, positions.id\<close>, each group giving one row
    with \<^verbatim>\<open>count(votes.id)\<close>, the number of its rows whose vote is not null;
  \<^item> \<^verbatim>\<open>orderBy positions.name, desc(count(votes.id))\<close>.

  The \<^verbatim>\<open>orderBy\<close> has these two keys and no other, and the order of rows
  that agree on both is the database's own.  So a list is an answer of
  \<^verbatim>\<open>getElectionResults\<close> exactly when it holds the grouped rows, each once, in an
  order that respects the two keys.  Strings compare lexicographically by character
  code.\<close>

type_synonym joined_row = "candidate \<times> user \<times> position \<times> vote option"

definition results_from :: "database \<Rightarrow> (candidate \<times> user \<times> position) list" where
  "results_from db =
     [(c, u, p).
        c \<leftarrow> candidates db,
        u \<leftarrow> users db, candidate_userId c = user_id u,
        p \<leftarrow> positions db, candidate_positionId c = position_id p]"

definition left_join_votes :: "vote list \<Rightarrow> candidate \<Rightarrow> vote option list" where
  "left_join_votes vs c =
     (case filter (\<lambda>v. vote_candidateId v = candidate_id c) vs of
        [] \<Rightarrow> [None]
      | m # ms \<Rightarrow> map Some (m # ms))"

definition results_joined :: "database \<Rightarrow> uuid \<Rightarrow> joined_row list" where
  "results_joined db electionId =
     filter (\<lambda>(c, u, p, vo). candidate_electionId c = electionId)
       [(c, u, p, vo). (c, u, p) \<leftarrow> results_from db, vo \<leftarrow> left_join_votes (votes db) c]"

fun group_by :: "('a \<Rightarrow> 'k) \<Rightarrow> 'a list \<Rightarrow> 'a list list" where
  "group_by key [] = []"
| "group_by key (x # xs) =
     (x # filter (\<lambda>y. key y = key x) xs) # group_by key (filter (\<lambda>y. key y \<noteq> key x) xs)"

definition group_key :: "joined_row \<Rightarrow> uuid \<times> uuid \<times> uuid" where
  "group_key = (\<lambda>(c, u, p, vo). (candidate_id c, user_id u, position_id p))"

record result_row = candidate_row +
  voteCount :: nat

definition aggregate :: "joined_row list \<Rightarrow> result_row list" where
  "aggregate g =
     (case g of
        [] \<Rightarrow> []
      | (c, u, p, vo) # rest \<Rightarrow>
          [\<lparr>candidate = c, user = u, position = p,
            voteCount = length (filter (\<lambda>(c', u', p', vo'). vo' \<noteq> None) g)\<rparr>])"

definition results_grouped :: "database \<Rightarrow> uuid \<Rightarrow> result_row list" where
  "results_grouped db electionId =
     concat (map aggregate (group_by group_key (results_joined db electionId)))"

definition order_key :: "result_row \<Rightarrow> string \<times> int" where
  "order_key r = (position_name (position r), - int (voteCount r))"

definition getElectionResults :: "database \<Rightarrow> uuid \<Rightarrow> result_row list \<Rightarrow> bool" where
  "getElectionResults db electionId rs \<longleftrightarrow>
     mset rs = mset (results_grouped db electionId) \<and> sorted (map order_key rs)"

section \<open>The routes (server/routes.ts)\<close>

subsection \<open>POST /api/vote\<close>

text \<open>A request carries the session's user (\<open>None\<close> when
  \<^verbatim>\<open>req.isAuthenticated()\<close> is false) and a JSON body, of which the handler reads
  three fields; a field that is missing or not a string is \<open>None\<close>, and
  \<^verbatim>\<open>insertVoteSchema.parse\<close> throws on it.  The \<^verbatim>\<open>voterId\<close> is always
  the session user's id, whatever the body says.\<close>

record vote_body =
  body_candidateId :: "uuid option"
  body_electionId :: "uuid option"
  body_positionId :: "uuid option"

record vote_request =
  req_user :: "user option"
  req_body :: vote_body

definition insertVoteSchema_parse :: "vote_body \<Rightarrow> uuid \<Rightarrow> insertVote option" where
  "insertVoteSchema_parse body voterId =
     (case (body_candidateId body, body_electionId body, body_positionId body) of
        (Some c, Some e, Some p) \<Rightarrow>
          Some \<lparr>iv_voterId = voterId, iv_candidateId = c, iv_electionId = e, iv_positionId = p\<rparr>
      | _ \<Rightarrow> None)"

text \<open>A response is a status and either a \<^verbatim>\<open>{message}\<close> object or the vote.\<close>

datatype vote_response = Message nat string | Created nat vote

text \<open>The handler, when no other request touches the database while it runs.  Its only
  checks are: the session, the shape of the body, and \<^verbatim>\<open>hasUserVoted\<close>.  Anything
  thrown inside the \<^verbatim>\<open>try\<close> becomes the 500.\<close>

definition post_vote ::
  "database \<Rightarrow> uuid \<Rightarrow> timestamp \<Rightarrow> vote_request \<Rightarrow> vote_response \<times> database" where
  "post_vote db newId now req =
     (case req_user req of
        None \<Rightarrow> (Message 401 ''Authentication required'', db)
      | Some u \<Rightarrow>
          (case insertVoteSchema_parse (req_body req) (user_id u) of
             None \<Rightarrow> (Message 500 ''Failed to submit vote'', db)
           | Some voteData \<Rightarrow>
               (let (hasVoted, db1) =
                      hasUserVoted db (iv_voterId voteData) (iv_electionId voteData)
                        (iv_positionId voteData)
                in if hasVoted
                   then (Message 400 ''You have already voted for this position'', db1)
                   else
                     (case castVote db1 newId now voteData of
                        (Inl err, db2) \<Rightarrow> (Message 500 ''Failed to submit vote'', db2)
                      | (Inr vote, db2) \<Rightarrow> (Created 201 vote, db2)))))"

text \<open>The handler is an \<^verbatim>\<open>async\<close> function: it stops at
  \<^verbatim>\<open>await storage.hasUserVoted(...)\<close> and again at
  \<^verbatim>\<open>await storage.castVote(...)\<close>, and other requests run in between.  The two
  statements are not in a transaction, and the table \<^verbatim>\<open>votes\<close> has no unique
  constraint on (voter, election, position).  So a request touches the database twice:
  \<open>vote_check\<close> is the handler up to the answer of the count query, \<open>vote_insert\<close>
  the rest of it.\<close>

datatype vote_progress = Replied vote_response | AwaitingInsert insertVote

definition vote_check :: "database \<Rightarrow> vote_request \<Rightarrow> vote_progress \<times> database" where
  "vote_check db req =
     (case req_user req of
        None \<Rightarrow> (Replied (Message 401 ''Authentication required''), db)
      | Some u \<Rightarrow>
          (case insertVoteSchema_parse (req_body req) (user_id u) of
             None \<Rightarrow> (Replied (Message 500 ''Failed to submit vote''), db)
           | Some voteData \<Rightarrow>
               (let (hasVoted, db1) =
                      hasUserVoted db (iv_voterId voteData) (iv_electionId voteData)
                        (iv_positionId voteData)
                in if hasVoted
                   then (Replied (Message 400 ''You have already voted for this position''), db1)
                   else (AwaitingInsert voteData, db1))))"

definition vote_insert ::
  "database \<Rightarrow> uuid \<Rightarrow> timestamp \<Rightarrow> insertVote \<Rightarrow> vote_response \<times> database" where
  "vote_insert db newId now voteData =
     (case castVote db newId now voteData of
        (Inl err, db2) \<Rightarrow> (Message 500 ''Failed to submit vote'', db2)
      | (Inr vote, db2) \<Rightarrow> (Created 201 vote, db2))"

text \<open>The server with several requests in flight.  A request is known by a number.
  \<open>Check\<close> runs a new request up to its count query; a request that is not answered
  there waits, with its parsed vote, for its insert.  \<open>Insert\<close> resumes a waiting request
  with the row id and the time the database generates.  The events of different requests
  come in any order.\<close>

record server =
  srv_db :: database
  srv_waiting :: "(nat \<times> insertVote) list"
  srv_replies :: "(nat \<times> vote_response) list"

datatype event = Check nat vote_request | Insert nat uuid timestamp

definition server_step :: "server \<Rightarrow> event \<Rightarrow> server" where
  "server_step s ev =
     (case ev of
        Check rid req \<Rightarrow>
          (case vote_check (srv_db s) req of
             (Replied r, db1) \<Rightarrow>
               s\<lparr>srv_db := db1, srv_replies := srv_replies s @ [(rid, r)]\<rparr>
           | (AwaitingInsert voteData, db1) \<Rightarrow>
               s\<lparr>srv_db := db1, srv_waiting := srv_waiting s @ [(rid, voteData)]\<rparr>)
      | Insert rid newId now \<Rightarrow>
          (case map_of (srv_waiting s) rid of
             None \<Rightarrow> s
           | Some voteData \<Rightarrow>
               (case vote_insert (srv_db s) newId now voteData of
                  (r, db2) \<Rightarrow>
                    s\<lparr>srv_db := db2,
                      srv_waiting := filter (\<lambda>w. fst w \<noteq> rid) (srv_waiting s),
                      srv_replies := srv_replies s @ [(rid, r)]\<rparr>)))"

definition server_run :: "database \<Rightarrow> event list \<Rightarrow> server" where
  "server_run db evs =
     foldl server_step \<lparr>srv_db = db, srv_waiting = [], srv_replies = []\<rparr> evs"

subsection \<open>GET /api/elections/active\<close>

text \<open>\<^verbatim>\<open>userVotes\<close> is a JavaScript object filled by assignment, one key per
  position id: an association list under \<open>AList.update\<close>.  The handler starts the
  per-election work under \<^verbatim>\<open>Promise.all\<close>; that work only reads, and here it runs
  election after election.\<close>

record election_with_votes = election_with_club +
  userVotes :: "(uuid \<times> bool) list option"

fun userVotes_loop ::
  "database \<Rightarrow> uuid \<Rightarrow> uuid \<Rightarrow> position list \<Rightarrow> (uuid \<times> bool) list
     \<Rightarrow> (uuid \<times> bool) list \<times> database" where
  "userVotes_loop db userId electionId [] uv = (uv, db)"
| "userVotes_loop db userId electionId (p # ps) uv =
     (let (hasVoted, db1) = hasUserVoted db userId electionId (position_id p)
      in userVotes_loop db1 userId electionId ps
           (AList.update (position_id p) hasVoted uv))"

definition election_status ::
  "database \<Rightarrow> user option \<Rightarrow> election_with_club \<Rightarrow> election_with_votes \<times> database" where
  "election_status db session el =
     (case session of
        None \<Rightarrow>
          (\<lparr>ec_election = ec_election el, ec_club = ec_club el,
            ec_positions = ec_positions el, userVotes = Some []\<rparr>, db)
      | Some u \<Rightarrow>
          (let (uv, db1) =
                 userVotes_loop db (user_id u) (election_id (ec_election el))
                   (ec_positions el) []
           in (\<lparr>ec_election = ec_election el, ec_club = ec_club el,
                ec_positions = ec_positions el, userVotes = Some uv\<rparr>, db1)))"

fun elections_with_status ::
  "database \<Rightarrow> user option \<Rightarrow> election_with_club list \<Rightarrow> election_with_votes list \<times> database"
  where
  "elections_with_status db session [] = ([], db)"
| "elections_with_status db session (el # els) =
     (let (r, db1) = election_status db session el;
          (rs, db2) = elections_with_status db1 session els
      in (r # rs, db2))"

definition get_elections_active ::
  "database \<Rightarrow> timestamp \<Rightarrow> user option \<Rightarrow> election_with_votes list \<times> database" where
  "get_elections_active db now session =
     elections_with_status db session (getActiveElections db now)"

section \<open>The voter's page (client, HomePage)\<close>

text \<open>\<^verbatim>\<open>getUserVotingStatus\<close>: the number of \<^verbatim>\<open>true\<close> values of
  \<^verbatim>\<open>userVotes\<close> against the number of positions; the test for
  \<^verbatim>\<open>"Completed"\<close> comes first.\<close>

definition getUserVotingStatus :: "election_with_votes \<Rightarrow> string" where
  "getUserVotingStatus el =
     (case userVotes el of
        None \<Rightarrow> ''Not Voted''
      | Some uv \<Rightarrow>
          (let totalPositions = length (ec_positions el);
               votedPositions = length (filter (\<lambda>b. b) (map snd uv))
           in if votedPositions = totalPositions then ''Completed''
              else if votedPositions > 0 then ''Partial''
              else ''Not Voted''))"

section \<open>Notions used in the statements\<close>

text \<open>The triple a ballot is unique for, and the uniqueness of the stored ballots:
  no two rows of \<^verbatim>\<open>votes\<close> carry the same triple.\<close>

definition vote_key :: "vote \<Rightarrow> uuid \<times> uuid \<times> uuid" where
  "vote_key v = (vote_voterId v, vote_electionId v, vote_positionId v)"

definition ballots_unique :: "vote list \<Rightarrow> bool" where
  "ballots_unique vs \<longleftrightarrow> distinct (map vote_key vs)"

text \<open>The rows one candidate contributes to the two inner joins, and the rows one
  joined row contributes to the left join with \<^verbatim>\<open>votes\<close>.\<close>

definition join_row :: "database \<Rightarrow> candidate \<Rightarrow> (candidate \<times> user \<times> position) list" where
  "join_row db c =
     [(c, u, p). u \<leftarrow> users db, candidate_userId c = user_id u,
                 p \<leftarrow> positions db, candidate_positionId c = position_id p]"

definition vote_rows :: "database \<Rightarrow> candidate \<times> user \<times> position \<Rightarrow> joined_row list" where
  "vote_rows db = (\<lambda>(c, u, p). map (\<lambda>vo. (c, u, p, vo)) (left_join_votes (votes db) c))"

text \<open>The order of the tally, as a relation between an earlier and a later row.\<close>

definition tally_before :: "result_row \<Rightarrow> result_row \<Rightarrow> bool" where
  "tally_before r1 r2 \<longleftrightarrow>
     position_name (position r1) < position_name (position r2) \<or>
     (position_name (position r1) = position_name (position r2) \<and> voteCount r2 \<le> voteCount r1)"

section \<open>A small campus\<close>

text \<open>Three students, a chess club with two positions and a drama club with none, and
  elections observed at time 100: one running, one past its end date, one whose start
  date is still ahead, one switched off, and one of the club without positions.\<close>

definition student :: "uuid \<Rightarrow> string \<Rightarrow> user" where
  "student i n =
     \<lparr>user_id = i, user_username = n, user_email = n @ ''@campus.example'',
      user_password = ''x'', user_firstName = n, user_lastName = ''Doe'',
      user_role = ''student'', user_isVerified = True, user_createdAt = 1\<rparr>"

definition alice :: user where "alice = student ''u1'' ''alice''"
definition bob :: user where "bob = student ''u2'' ''bob''"
definition carol :: user where "carol = student ''u3'' ''carol''"

definition chess :: club where
  "chess = \<lparr>club_id = ''k1'', club_name = ''Chess Club'', club_description = None,
            club_icon = ''fas fa-users'', club_createdAt = 1\<rparr>"

definition drama :: club where
  "drama = \<lparr>club_id = ''k2'', club_name = ''Drama Club'', club_description = None,
            club_icon = ''fas fa-users'', club_createdAt = 1\<rparr>"

definition president :: position where
  "president = \<lparr>position_id = ''p1'', position_name = ''President'',
                position_clubId = ''k1'', position_description = None,
                position_createdAt = 2\<rparr>"

definition secretary :: position where
  "secretary = \<lparr>position_id = ''p2'', position_name = ''Secretary'',
                position_clubId = ''k1'', position_description = None,
                position_createdAt = 2\<rparr>"

definition poll :: "uuid \<Rightarrow> uuid \<Rightarrow> timestamp \<Rightarrow> timestamp \<Rightarrow> bool \<Rightarrow> election" where
  "poll i k s e a =
     \<lparr>election_id = i, election_clubId = k, election_title = ''Board'',
      election_description = None, election_startDate = s, election_endDate = e,
      election_isActive = a, election_createdAt = 3\<rparr>"

definition spring :: election where "spring = poll ''e1'' ''k1'' 0 200 True"
definition autumn :: election where "autumn = poll ''e2'' ''k1'' 0 50 True"
definition winter :: election where "winter = poll ''e3'' ''k1'' 500 900 True"
definition drama_night :: election where "drama_night = poll ''e4'' ''k2'' 0 300 True"
definition suspended :: election where "suspended = poll ''e5'' ''k1'' 0 900 False"

definition runner ::
  "uuid \<Rightarrow> uuid \<Rightarrow> uuid \<Rightarrow> uuid \<Rightarrow> bool \<Rightarrow> timestamp \<Rightarrow> candidate" where
  "runner i u e p a t =
     \<lparr>candidate_id = i, candidate_userId = u, candidate_electionId = e,
      candidate_positionId = p, candidate_manifesto = None, candidate_isApproved = a,
      candidate_createdAt = t\<rparr>"

text \<open>Carol registered first (time 10), Bob after her (time 20); Bob is not approved.
  The table yields Bob's row before Carol's.\<close>

definition cand_bob :: candidate where "cand_bob = runner ''c1'' ''u2'' ''e1'' ''p1'' False 20"
definition cand_carol :: candidate where "cand_carol = runner ''c2'' ''u3'' ''e1'' ''p1'' True 10"
definition cand_alice :: candidate where "cand_alice = runner ''c3'' ''u1'' ''e1'' ''p1'' True 30"
definition cand_scribe :: candidate where "cand_scribe = runner ''c4'' ''u3'' ''e1'' ''p2'' True 31"
definition cand_autumn :: candidate where "cand_autumn = runner ''c5'' ''u2'' ''e2'' ''p1'' True 5"
definition cand_winter :: candidate where "cand_winter = runner ''c6'' ''u3'' ''e3'' ''p1'' True 40"
definition cand_suspended :: candidate where
  "cand_suspended = runner ''c7'' ''u2'' ''e5'' ''p2'' True 41"

definition campus :: database where
  "campus =
     \<lparr>users = [alice, bob, carol],
      clubs = [chess, drama],
      positions = [president, secretary],
      elections = [spring, autumn, winter, drama_night, suspended],
      candidates = [cand_bob, cand_carol, cand_alice, cand_scribe, cand_autumn, cand_winter,
                    cand_suspended],
      votes = []\<rparr>"

definition ballot :: "uuid \<Rightarrow> uuid \<Rightarrow> uuid \<Rightarrow> uuid \<Rightarrow> uuid \<Rightarrow> timestamp \<Rightarrow> vote" where
  "ballot i v c e p t =
     \<lparr>vote_id = i, vote_voterId = v, vote_candidateId = c, vote_electionId = e,
      vote_positionId = p, vote_createdAt = t\<rparr>"

text \<open>The campus after Alice voted for Carol and Bob for himself, as president.\<close>

definition campus_voted :: database where
  "campus_voted =
     campus\<lparr>votes := [ballot ''v1'' ''u1'' ''c2'' ''e1'' ''p1'' 60,
                       ballot ''v2'' ''u2'' ''c1'' ''e1'' ''p1'' 61]\<rparr>"

text \<open>The same campus with the rows of Bob and Carol in the other order.\<close>

definition campus_swapped :: database where
  "campus_swapped =
     campus_voted\<lparr>candidates := [cand_carol, cand_bob, cand_alice, cand_scribe, cand_autumn,
                                   cand_winter, cand_suspended]\<rparr>"

text \<open>Rows of the roster and of the tally.\<close>

definition roster_row :: "candidate \<Rightarrow> user \<Rightarrow> position \<Rightarrow> candidate_row" where
  "roster_row c u p = \<lparr>candidate = c, user = u, position = p\<rparr>"

definition tally_row :: "candidate \<Rightarrow> user \<Rightarrow> position \<Rightarrow> nat \<Rightarrow> result_row" where
  "tally_row c u p n = \<lparr>candidate = c, user = u, position = p, voteCount = n\<rparr>"

text \<open>A vote request of a signed-in user.\<close>

definition vote_for :: "user \<Rightarrow> uuid \<Rightarrow> uuid \<Rightarrow> uuid \<Rightarrow> vote_request" where
  "vote_for u c e p =
     \<lparr>req_user = Some u,
      req_body = \<lparr>body_candidateId = Some c, body_electionId = Some e,
                  body_positionId = Some p\<rparr>\<rparr>"

section \<open>Facts about the joins\<close>

lemma concat_map_if:
  "concat (map (\<lambda>x. if P x then G x else []) xs) = concat (map G (filter P xs))"
  by (induction xs) auto

lemma unique_match:
  assumes "distinct (map f ys)" and "k \<in> set (map f ys)"
  shows "\<exists>y. filter (\<lambda>y. k = f y) ys = [y] \<and> y \<in> set ys \<and> f y = k"
  using assms
proof (induction ys)
  case Nil
  then show ?case by simp
next
  case (Cons a ys)
  show ?case
  proof (cases "k = f a")
    case True
    with Cons.prems have "filter (\<lambda>y. k = f y) ys = []"
      by (auto simp: filter_empty_conv)
    with True show ?thesis by simp
  next
    case False
    with Cons show ?thesis by auto
  qed
qed

lemma at_most_one_match:
  assumes "distinct (map f ys)"
  shows "filter (\<lambda>y. k = f y) ys = [] \<or> (\<exists>y. filter (\<lambda>y. k = f y) ys = [y])"
proof (cases "k \<in> set (map f ys)")
  case True
  with unique_match[OF assms] show ?thesis by blast
next
  case False
  then have "filter (\<lambda>y. k = f y) ys = []" by (auto simp: filter_empty_conv)
  then show ?thesis by simp
qed

lemma results_from_join_row: "results_from db = concat (map (join_row db) (candidates db))"
  by (simp add: results_from_def join_row_def[abs_def])

lemma join_row_alt:
  "join_row db c =
     [(c, u, p). u \<leftarrow> filter (\<lambda>u. candidate_userId c = user_id u) (users db),
                 p \<leftarrow> filter (\<lambda>p. candidate_positionId c = position_id p) (positions db)]"
  by (simp add: join_row_def concat_map_if)

lemma join_row_single:
  assumes pk: "primary_keys db" and fk: "foreign_keys db" and c: "c \<in> set (candidates db)"
  shows "\<exists>u p. join_row db c = [(c, u, p)] \<and> u \<in> set (users db) \<and> p \<in> set (positions db) \<and>
               user_id u = candidate_userId c \<and> position_id p = candidate_positionId c"
proof -
  from fk c have "candidate_userId c \<in> set (map user_id (users db))"
    and "candidate_positionId c \<in> set (map position_id (positions db))"
    by (auto simp: foreign_keys_def list_all_iff)
  moreover from pk have "distinct (map user_id (users db))" "distinct (map position_id (positions db))"
    by (simp_all add: primary_keys_def)
  ultimately obtain u p where
    "filter (\<lambda>u. candidate_userId c = user_id u) (users db) = [u]" "u \<in> set (users db)"
    "user_id u = candidate_userId c"
    "filter (\<lambda>p. candidate_positionId c = position_id p) (positions db) = [p]" "p \<in> set (positions db)"
    "position_id p = candidate_positionId c"
    using unique_match[of user_id "users db" "candidate_userId c"]
      unique_match[of position_id "positions db" "candidate_positionId c"] by blast
  then show ?thesis by (auto simp: join_row_alt)
qed

lemma join_row_short:
  assumes pk: "primary_keys db"
  shows "join_row db c = [] \<or> (\<exists>u p. join_row db c = [(c, u, p)])"
proof -
  from pk have d: "distinct (map user_id (users db))" "distinct (map position_id (positions db))"
    by (simp_all add: primary_keys_def)
  let ?us = "filter (\<lambda>u. candidate_userId c = user_id u) (users db)"
  let ?ps = "filter (\<lambda>p. candidate_positionId c = position_id p) (positions db)"
  have "?us = [] \<or> (\<exists>u. ?us = [u])" by (rule at_most_one_match[OF d(1)])
  moreover have "?ps = [] \<or> (\<exists>p. ?ps = [p])" by (rule at_most_one_match[OF d(2)])
  moreover have "join_row db c = [(c, u, p). u \<leftarrow> ?us, p \<leftarrow> ?ps]" by (rule join_row_alt)
  ultimately show ?thesis by (elim disjE exE) simp_all
qed


lemma roster_join_row:
  "roster_rows db e =
     concat (map (\<lambda>c. if candidate_electionId c = e \<and> candidate_isApproved c
                       then map (\<lambda>(c, u, p). \<lparr>candidate = c, user = u, position = p\<rparr>) (join_row db c)
                       else []) (candidates db))"
  unfolding roster_rows_def join_row_def
  by (rule arg_cong[where f=concat], rule map_cong[OF refl])
     (auto simp: map_concat comp_def intro!: arg_cong[where f=concat] map_cong)

lemma roster_sound:
  assumes "r \<in> set (roster_rows db e)"
  shows "candidate r \<in> set (candidates db) \<and> candidate_electionId (candidate r) = e \<and>
         candidate_isApproved (candidate r)"
  using assms by (auto simp: roster_rows_def split: if_splits)

lemma roster_complete:
  assumes pk: "primary_keys db" and fk: "foreign_keys db"
  shows "map candidate (roster_rows db e) =
         filter (\<lambda>c. candidate_electionId c = e \<and> candidate_isApproved c) (candidates db)"
proof -
  have "map candidate (roster_rows db e) =
        concat (map (\<lambda>c. if candidate_electionId c = e \<and> candidate_isApproved c then [c] else [])
                  (candidates db))"
    unfolding roster_join_row map_concat map_map
  proof (rule arg_cong[where f=concat], rule map_cong[OF refl])
    fix c assume "c \<in> set (candidates db)"
    from join_row_single[OF pk fk this] obtain u p where "join_row db c = [(c, u, p)]" by blast
    then show "(map candidate \<circ> (\<lambda>c. if candidate_electionId c = e \<and> candidate_isApproved c
            then map (\<lambda>(c, u, p). \<lparr>candidate = c, user = u, position = p\<rparr>) (join_row db c) else [])) c
          = (if candidate_electionId c = e \<and> candidate_isApproved c then [c] else [])"
      by simp
  qed
  also have "\<dots> = filter (\<lambda>c. candidate_electionId c = e \<and> candidate_isApproved c) (candidates db)"
    by (induction "candidates db") (auto simp: concat_map_if)
  finally show ?thesis .
qed


lemma group_by_concat:
  assumes "distinct (map \<kappa> ks)" and "\<forall>k\<in>set ks. \<forall>y\<in>set (G k). key y = \<kappa> k"
  shows "group_by key (concat (map G ks)) = filter (\<lambda>g. g \<noteq> []) (map G ks)"
  using assms
proof (induction ks)
  case Nil
  then show ?case by simp
next
  case (Cons k ks)
  let ?rest = "concat (map G ks)"
  have IH: "group_by key ?rest = filter (\<lambda>g. g \<noteq> []) (map G ks)"
    using Cons by simp
  have rest_keys: "\<forall>z\<in>set ?rest. key z \<noteq> \<kappa> k"
  proof
    fix z assume "z \<in> set ?rest"
    then obtain k' where k': "k' \<in> set ks" "z \<in> set (G k')" by auto
    with Cons.prems(2) have "key z = \<kappa> k'" by simp
    moreover from Cons.prems(1) k'(1) have "\<kappa> k' \<noteq> \<kappa> k" by (fastforce simp: image_iff)
    ultimately show "key z \<noteq> \<kappa> k" by simp
  qed
  show ?case
  proof (cases "G k")
    case Nil
    then show ?thesis using IH by simp
  next
    case (Cons y ys)
    have ky: "key y = \<kappa> k" and kys: "\<forall>z\<in>set ys. key z = \<kappa> k"
      using Cons.prems(2) Cons by auto
    have 1: "filter (\<lambda>z. key z = key y) (ys @ ?rest) = ys"
      using ky kys rest_keys by (simp add: filter_empty_conv filter_id_conv)
    have 2: "filter (\<lambda>z. key z \<noteq> key y) (ys @ ?rest) = ?rest"
      using ky kys rest_keys by (simp add: filter_empty_conv filter_id_conv)
    show ?thesis using Cons IH 1 2 by simp
  qed
qed

lemma aggregate_concat_nonempty:
  "concat (map aggregate (filter (\<lambda>g. g \<noteq> []) gs)) = concat (map aggregate gs)"
  by (induction gs) (auto simp: aggregate_def)

lemma results_joined_vote_rows:
  "results_joined db e =
     concat (map (\<lambda>t. if candidate_electionId (fst t) = e then vote_rows db t else [])
       (results_from db))"
proof -
  have "filter (\<lambda>(c, u, p, vo). candidate_electionId c = e) (vote_rows db t) =
        (if candidate_electionId (fst t) = e then vote_rows db t else [])" for t
    by (cases t) (auto simp: vote_rows_def filter_empty_conv filter_id_conv)
  moreover have "[(c, u, p, vo). (c, u, p) \<leftarrow> results_from db, vo \<leftarrow> left_join_votes (votes db) c]
    = concat (map (vote_rows db) (results_from db))"
    by (rule arg_cong[where f=concat], rule map_cong[OF refl]) (auto simp: vote_rows_def)
  ultimately show ?thesis
    by (simp add: results_joined_def filter_concat comp_def)
qed

lemma left_join_votes_count:
  "length (filter (\<lambda>vo. vo \<noteq> None) (left_join_votes (votes db) c)) = getVoteCount db (candidate_id c)"
  by (cases "filter (\<lambda>v. vote_candidateId v = candidate_id c) (votes db)")
     (simp_all add: left_join_votes_def getVoteCount_def)

lemma left_join_votes_nonempty: "left_join_votes vs c \<noteq> []"
  by (simp add: left_join_votes_def split: list.splits)

lemma filter_vote_rows:
  "filter (\<lambda>(c', u', p', vo'). vo' \<noteq> None) (map (\<lambda>vo. (c, u, p, vo)) vs) =
   map (\<lambda>vo. (c, u, p, vo)) (filter (\<lambda>vo. vo \<noteq> None) vs)"
  by (induction vs) auto

lemma aggregate_Cons:
  "aggregate ((c, u, p, vo) # rest) =
     [\<lparr>candidate = c, user = u, position = p,
       voteCount = length (filter (\<lambda>(c', u', p', vo'). vo' \<noteq> None) ((c, u, p, vo) # rest))\<rparr>]"
  by (simp add: aggregate_def)

lemma aggregate_vote_rows:
  "aggregate (vote_rows db (c, u, p)) =
     [\<lparr>candidate = c, user = u, position = p, voteCount = getVoteCount db (candidate_id c)\<rparr>]"
proof -
  obtain vo vos where l: "left_join_votes (votes db) c = vo # vos"
    using left_join_votes_nonempty[of "votes db" c] by (cases "left_join_votes (votes db) c") auto
  have v: "vote_rows db (c, u, p) = (c, u, p, vo) # map (\<lambda>vo. (c, u, p, vo)) vos"
    using l by (simp add: vote_rows_def)
  have "length (filter (\<lambda>(c', u', p', vo'). vo' \<noteq> None) (vote_rows db (c, u, p))) =
        length (filter (\<lambda>vo. vo \<noteq> None) (left_join_votes (votes db) c))"
    unfolding vote_rows_def prod.case filter_vote_rows by simp
  then have "length (filter (\<lambda>(c', u', p', vo'). vo' \<noteq> None) (vote_rows db (c, u, p))) =
        getVoteCount db (candidate_id c)"
    by (simp only: left_join_votes_count)
  then show ?thesis
    unfolding v aggregate_Cons by simp
qed

lemma join_row_fst: "(c', u, p) \<in> set (join_row db c) \<Longrightarrow> c' = c"
  by (auto simp: join_row_def split: if_splits)

lemma results_from_distinct:
  assumes pk: "primary_keys db"
  shows "distinct (map (\<lambda>(c, u, p). (candidate_id c, user_id u, position_id p)) (results_from db))"
proof -
  have sub: "candidate_id (fst t) \<in> set (map candidate_id cs)"
    if "t \<in> set (concat (map (join_row db) cs))" for t cs
    using that join_row_fst[of "fst t" "fst (snd t)" "snd (snd t)" db] by fastforce
  have *: "distinct (map candidate_id cs) \<Longrightarrow>
        distinct (map (\<lambda>t. candidate_id (fst t)) (concat (map (join_row db) cs)))" for cs
  proof (induction cs)
    case Nil
    then show ?case by simp
  next
    case (Cons c cs)
    then have IH: "distinct (map (\<lambda>t. candidate_id (fst t)) (concat (map (join_row db) cs)))"
      and new: "candidate_id c \<notin> set (map candidate_id cs)" by simp_all
    from join_row_short[OF pk, of c] show ?case
    proof (elim disjE exE)
      assume "join_row db c = []"
      with IH show ?thesis by simp
    next
      fix u p assume "join_row db c = [(c, u, p)]"
      moreover have "candidate_id c \<notin> set (map (\<lambda>t. candidate_id (fst t)) (concat (map (join_row db) cs)))"
        using sub[of _ cs] new by fastforce
      ultimately show ?thesis using IH by simp
    qed
  qed
  from pk have "distinct (map candidate_id (candidates db))" by (simp add: primary_keys_def)
  from *[OF this] have "distinct (map (\<lambda>t. candidate_id (fst t)) (results_from db))"
    by (simp add: results_from_join_row)
  then have "distinct (map fst (map (\<lambda>(c, u, p). (candidate_id c, user_id u, position_id p)) (results_from db)))"
    by (simp add: comp_def case_prod_beta)
  then show ?thesis unfolding distinct_map[of fst] by (rule conjunct1)
qed

lemma results_grouped_eq:
  assumes pk: "primary_keys db"
  shows "results_grouped db e =
     [\<lparr>candidate = c, user = u, position = p, voteCount = getVoteCount db (candidate_id c)\<rparr>.
        (c, u, p) \<leftarrow> results_from db, candidate_electionId c = e]"
proof -
  let ?H = "\<lambda>t. if candidate_electionId (fst t) = e then vote_rows db t else []"
  let ?\<kappa> = "\<lambda>(c, u, p). (candidate_id c, user_id u, position_id p)"
  have keys: "\<forall>t\<in>set (results_from db). \<forall>y\<in>set (?H t). group_key y = ?\<kappa> t"
    by (auto simp: vote_rows_def group_key_def)
  have "group_by group_key (results_joined db e) = filter (\<lambda>g. g \<noteq> []) (map ?H (results_from db))"
    unfolding results_joined_vote_rows
    by (rule group_by_concat[OF results_from_distinct[OF pk] keys])
  then have "results_grouped db e = concat (map (\<lambda>t. aggregate (?H t)) (results_from db))"
    by (simp add: results_grouped_def aggregate_concat_nonempty comp_def)
  also have "\<dots> = concat (map (\<lambda>(c, u, p). if candidate_electionId c = e then
       [\<lparr>candidate = c, user = u, position = p, voteCount = getVoteCount db (candidate_id c)\<rparr>] else [])
       (results_from db))"
    by (rule arg_cong[where f=concat], rule map_cong[OF refl])
       (auto simp: aggregate_vote_rows, simp add: aggregate_def)
  finally show ?thesis by simp
qed

section \<open>Facts about voting\<close>

lemmas campus_defs =
  campus_def campus_voted_def campus_swapped_def alice_def bob_def carol_def student_def
  chess_def drama_def president_def secretary_def poll_def spring_def autumn_def winter_def
  drama_night_def suspended_def runner_def cand_bob_def cand_carol_def cand_alice_def
  cand_scribe_def cand_autumn_def cand_winter_def cand_suspended_def ballot_def vote_for_def
  roster_row_def tally_row_def

lemma campus_keys: "primary_keys campus \<and> foreign_keys campus"
  by (simp add: primary_keys_def foreign_keys_def campus_defs)

lemma campus_voted_keys: "primary_keys campus_voted \<and> foreign_keys campus_voted"
  by (simp add: primary_keys_def foreign_keys_def campus_defs)

lemma hasUserVoted_fst:
  "fst (hasUserVoted db u e p) \<longleftrightarrow>
     (\<exists>v \<in> set (votes db). vote_voterId v = u \<and> vote_electionId v = e \<and> vote_positionId v = p)"
  by (auto simp: hasUserVoted_def Let_def filter_empty_conv)

lemma hasUserVoted_snd: "snd (hasUserVoted db u e p) = db"
  by (simp add: hasUserVoted_def Let_def)

lemma hasUserVoted_key:
  "fst (hasUserVoted db u e p) \<longleftrightarrow> (u, e, p) \<in> set (map vote_key (votes db))"
  by (auto simp: hasUserVoted_fst vote_key_def image_iff)

lemma post_vote_duplicate:
  assumes "\<exists>v \<in> set (votes db). vote_voterId v = user_id u \<and> vote_electionId v = e \<and> vote_positionId v = p"
  shows "post_vote db newId now (vote_for u c e p) =
           (Message 400 ''You have already voted for this position'', db)"
proof -
  have "hasUserVoted db (user_id u) e p = (True, db)"
    using assms hasUserVoted_fst[of db "user_id u" e p] hasUserVoted_snd[of db "user_id u" e p]
    by (simp add: prod_eq_iff)
  then show ?thesis
    by (simp add: post_vote_def vote_for_def insertVoteSchema_parse_def)
qed

lemma post_vote_unique:
  assumes "ballots_unique (votes db)"
  shows "ballots_unique (votes (snd (post_vote db newId now req)))"
proof (cases "req_user req")
  case None
  then show ?thesis using assms by (simp add: post_vote_def)
next
  case (Some u)
  show ?thesis
  proof (cases "insertVoteSchema_parse (req_body req) (user_id u)")
    case None
    then show ?thesis using assms Some by (simp add: post_vote_def)
  next
    case (Some vd)
    obtain h db1 where h: "hasUserVoted db (iv_voterId vd) (iv_electionId vd) (iv_positionId vd) = (h, db1)"
      by (cases "hasUserVoted db (iv_voterId vd) (iv_electionId vd) (iv_positionId vd)")
    have db1: "db1 = db"
      using hasUserVoted_snd[of db "iv_voterId vd" "iv_electionId vd" "iv_positionId vd"] h by simp
    have hk: "h \<longleftrightarrow> (iv_voterId vd, iv_electionId vd, iv_positionId vd) \<in> set (map vote_key (votes db))"
      using hasUserVoted_key[of db "iv_voterId vd" "iv_electionId vd" "iv_positionId vd"] h by simp
    show ?thesis
    proof (cases h)
      case True
      then show ?thesis using assms \<open>req_user req = Some u\<close> Some h db1 by (simp add: post_vote_def)
    next
      case False
      then show ?thesis using assms \<open>req_user req = Some u\<close> Some h db1 hk
        by (auto simp: post_vote_def castVote_def Let_def vote_key_def ballots_unique_def)
    qed
  qed
qed

lemma ballots_unique_eq:
  assumes "ballots_unique vs" "b1 \<in> set vs" "b2 \<in> set vs"
    "vote_voterId b1 = vote_voterId b2" "vote_electionId b1 = vote_electionId b2"
    "vote_positionId b1 = vote_positionId b2"
  shows "b1 = b2"
proof -
  from assms(1) have "inj_on vote_key (set vs)"
    by (simp add: ballots_unique_def distinct_map)
  moreover from assms(4-6) have "vote_key b1 = vote_key b2" by (simp add: vote_key_def)
  ultimately show ?thesis using assms(2,3) by (rule inj_onD)
qed

section \<open>Facts about the tally\<close>

lemma concat_map_concat_map:
  "concat (map F (concat (map J cs))) = concat (map (\<lambda>c. concat (map F (J c))) cs)"
  by (induction cs) auto

lemma results_grouped_candidates:
  assumes pk: "primary_keys db" and fk: "foreign_keys db"
  shows "map candidate (results_grouped db e) =
         filter (\<lambda>c. candidate_electionId c = e) (candidates db)"
proof -
  let ?F = "\<lambda>(c, u, p). if candidate_electionId c = e
      then [\<lparr>candidate = c, user = u, position = p, voteCount = getVoteCount db (candidate_id c)\<rparr>]
      else []"
  have "results_grouped db e = concat (map ?F (results_from db))"
    by (rule results_grouped_eq[OF pk])
  also have "\<dots> = concat (map (\<lambda>c. concat (map ?F (join_row db c))) (candidates db))"
    by (simp only: results_from_join_row concat_map_concat_map)
  finally have "map candidate (results_grouped db e) =
        concat (map (\<lambda>c. map candidate (concat (map ?F (join_row db c)))) (candidates db))"
    by (simp only: map_concat map_map comp_def)
  also have "\<dots> = concat (map (\<lambda>c. if candidate_electionId c = e then [c] else []) (candidates db))"
  proof (rule arg_cong[where f=concat], rule map_cong[OF refl])
    fix c assume "c \<in> set (candidates db)"
    from join_row_single[OF pk fk this] obtain u p where "join_row db c = [(c, u, p)]" by blast
    then show "map candidate (concat (map ?F (join_row db c))) =
          (if candidate_electionId c = e then [c] else [])"
      by simp
  qed
  also have "\<dots> = filter (\<lambda>c. candidate_electionId c = e) (candidates db)"
    by (induction "candidates db") (auto simp: concat_map_if)
  finally show ?thesis .
qed

lemma results_grouped_counts:
  assumes pk: "primary_keys db" and r: "r \<in> set (results_grouped db e)"
  shows "voteCount r = getVoteCount db (candidate_id (candidate r))"
  using r unfolding results_grouped_eq[OF pk] by (auto split: if_splits)

lemma order_key_tally: "order_key r1 \<le> order_key r2 \<Longrightarrow> tally_before r1 r2"
  by (auto simp: order_key_def tally_before_def less_eq_prod_def)

lemma results_member:
  assumes pk: "primary_keys db" and fk: "foreign_keys db"
    and c: "c \<in> set (candidates db)" and e: "candidate_electionId c = e"
    and rs: "getElectionResults db e rs"
  shows "\<exists>r \<in> set rs. candidate r = c \<and> voteCount r = getVoteCount db (candidate_id c)"
proof -
  from rs have sets: "set rs = set (results_grouped db e)"
    by (auto simp: getElectionResults_def dest: mset_eq_setD)
  from c e have "c \<in> set (map candidate (results_grouped db e))"
    by (simp add: results_grouped_candidates[OF pk fk])
  then obtain r where r: "r \<in> set (results_grouped db e)" "candidate r = c" by auto
  with results_grouped_counts[OF pk r(1)] sets show ?thesis by auto
qed

lemma results_sorted:
  assumes "getElectionResults db e rs"
  shows "sorted_wrt tally_before rs"
proof -
  from assms have "sorted (map order_key rs)" by (simp add: getElectionResults_def)
  then have "sorted_wrt (\<lambda>r1 r2. order_key r1 \<le> order_key r2) rs"
    by (simp add: sorted_map)
  then show ?thesis
    by (rule sorted_wrt_mono_rel[rotated]) (simp add: order_key_tally)
qed

lemma roster_answer:
  assumes pk: "primary_keys db" and fk: "foreign_keys db"
    and rs: "getCandidatesByElection db e rs"
  shows "mset (map candidate rs) =
           mset (filter (\<lambda>c. candidate_electionId c = e \<and> candidate_isApproved c) (candidates db))"
    and "\<forall>r \<in> set rs. candidate r \<in> set (candidates db) \<and>
           candidate_electionId (candidate r) = e \<and> candidate_isApproved (candidate r)"
proof -
  from rs have m: "mset rs = mset (roster_rows db e)"
    by (simp add: getCandidatesByElection_def)
  then have "mset (map candidate rs) = mset (map candidate (roster_rows db e))"
    by (metis mset_map)
  then show "mset (map candidate rs) =
           mset (filter (\<lambda>c. candidate_electionId c = e \<and> candidate_isApproved c) (candidates db))"
    by (simp only: roster_complete[OF pk fk])
  from m have "set rs = set (roster_rows db e)" by (rule mset_eq_setD)
  then show "\<forall>r \<in> set rs. candidate r \<in> set (candidates db) \<and>
           candidate_electionId (candidate r) = e \<and> candidate_isApproved (candidate r)"
    using roster_sound by blast
qed

text \<open>Answers of the two queries on the campus.  The roster is given in the order
  Alice, scribe, Carol; the tally with Bob before Carol.\<close>

lemma campus_roster:
  "getCandidatesByElection campus ''e1''
     [roster_row cand_alice alice president, roster_row cand_scribe carol secretary,
      roster_row cand_carol carol president]"
proof -
  have "roster_rows campus ''e1'' =
     [roster_row cand_carol carol president, roster_row cand_alice alice president,
      roster_row cand_scribe carol secretary]"
    by code_simp
  then show ?thesis by (simp add: getCandidatesByElection_def)
qed

lemma campus_voted_roster:
  "getCandidatesByElection campus_voted ''e1''
     [roster_row cand_alice alice president, roster_row cand_scribe carol secretary,
      roster_row cand_carol carol president]"
proof -
  have "roster_rows campus_voted ''e1'' =
     [roster_row cand_carol carol president, roster_row cand_alice alice president,
      roster_row cand_scribe carol secretary]"
    by code_simp
  then show ?thesis by (simp add: getCandidatesByElection_def)
qed

lemma tally_rows_sorted:
  "sorted (map order_key
     [tally_row cand_bob bob president 1, tally_row cand_carol carol president 1,
      tally_row cand_alice alice president 0, tally_row cand_scribe carol secretary 0])"
  by code_simp

lemma campus_voted_tally:
  "getElectionResults campus_voted ''e1''
     [tally_row cand_bob bob president 1, tally_row cand_carol carol president 1,
      tally_row cand_alice alice president 0, tally_row cand_scribe carol secretary 0]"
proof -
  have "results_grouped campus_voted ''e1'' =
     [tally_row cand_bob bob president 1, tally_row cand_carol carol president 1,
      tally_row cand_alice alice president 0, tally_row cand_scribe carol secretary 0]"
    by code_simp
  then show ?thesis using tally_rows_sorted by (simp add: getElectionResults_def)
qed

lemma campus_swapped_tally:
  "getElectionResults campus_swapped ''e1''
     [tally_row cand_bob bob president 1, tally_row cand_carol carol president 1,
      tally_row cand_alice alice president 0, tally_row cand_scribe carol secretary 0]"
proof -
  have "results_grouped campus_swapped ''e1'' =
     [tally_row cand_carol carol president 1, tally_row cand_bob bob president 1,
      tally_row cand_alice alice president 0, tally_row cand_scribe carol secretary 0]"
    by code_simp
  then show ?thesis using tally_rows_sorted by (simp add: getElectionResults_def)
qed

lemma active_member:
  assumes "e \<in> set (elections db)" and "election_live now e"
    and "election_clubId e \<in> set (map club_id (clubs db))"
  shows "e \<in> ec_election ` set (getActiveElections db now)"
proof -
  from assms(3) obtain c where c: "c \<in> set (clubs db)" "election_clubId e = club_id c" by auto
  let ?el = "\<lparr>ec_election = e, ec_club = c, ec_positions = getPositionsByClub db (club_id c)\<rparr>"
  have "?el \<in> set (getActiveElections db now)"
    using assms(1,2) c by (force simp: getActiveElections_def Let_def)
  then show ?thesis by force
qed

lemma post_vote_accepts:
  assumes "u \<in> set (users db)" and "c \<in> set (map candidate_id (candidates db))"
    and "e \<in> set (map election_id (elections db))" and "p \<in> set (map position_id (positions db))"
    and "newId \<notin> set (map vote_id (votes db))"
    and "\<not> (\<exists>v \<in> set (votes db). vote_voterId v = user_id u \<and> vote_electionId v = e \<and>
                                    vote_positionId v = p)"
  shows "post_vote db newId now (vote_for u c e p) =
           (Created 201 (ballot newId (user_id u) c e p now),
            db\<lparr>votes := votes db @ [ballot newId (user_id u) c e p now]\<rparr>)"
proof -
  have "hasUserVoted db (user_id u) e p = (False, db)"
    using assms(6) hasUserVoted_fst[of db "user_id u" e p] hasUserVoted_snd[of db "user_id u" e p]
    by (simp add: prod_eq_iff)
  moreover have "castVote db newId now
      \<lparr>iv_voterId = user_id u, iv_candidateId = c, iv_electionId = e, iv_positionId = p\<rparr> =
      (Inr (ballot newId (user_id u) c e p now),
       db\<lparr>votes := votes db @ [ballot newId (user_id u) c e p now]\<rparr>)"
    using assms(1-5) by (simp add: castVote_def ballot_def Let_def)
  ultimately show ?thesis
    by (simp add: post_vote_def vote_for_def insertVoteSchema_parse_def)
qed

lemma post_vote_phases:
  "post_vote db newId now req =
     (case vote_check db req of
        (Replied r, db1) \<Rightarrow> (r, db1)
      | (AwaitingInsert voteData, db1) \<Rightarrow> vote_insert db1 newId now voteData)"
  by (simp add: post_vote_def vote_check_def vote_insert_def Let_def case_prod_beta
        split: option.splits)

text \<open>Vote submissions keep the constraints of the schema: the insert is refused when it
  would break one.\<close>

lemma castVote_keys:
  assumes "primary_keys db" and "foreign_keys db"
  shows "primary_keys (snd (castVote db newId now iv)) \<and> foreign_keys (snd (castVote db newId now iv))"
  using assms
  by (auto simp: castVote_def Let_def primary_keys_def foreign_keys_def)

lemma post_vote_keys:
  assumes "primary_keys db" and "foreign_keys db"
  shows "primary_keys (snd (post_vote db newId now req)) \<and>
         foreign_keys (snd (post_vote db newId now req))"
proof -
  have "snd (post_vote db newId now req) = db \<or>
        (\<exists>iv. snd (post_vote db newId now req) = snd (castVote db newId now iv))"
    by (auto simp: post_vote_def Let_def case_prod_beta hasUserVoted_snd
          split: option.splits sum.splits prod.splits)
  with assms castVote_keys[OF assms] show ?thesis by auto
qed

section \<open>Facts about the completion view\<close>

lemma update_fresh: "k \<notin> fst ` set al \<Longrightarrow> AList.update k v al = al @ [(k, v)]"
  by (induction al) auto

lemma userVotes_loop_eq:
  assumes "distinct (map position_id ps)" and "set (map position_id ps) \<inter> fst ` set uv = {}"
  shows "userVotes_loop db u e ps uv =
           (uv @ map (\<lambda>p. (position_id p, fst (hasUserVoted db u e (position_id p)))) ps, db)"
  using assms
proof (induction ps arbitrary: uv)
  case Nil
  then show ?case by simp
next
  case (Cons p ps)
  let ?h = "fst (hasUserVoted db u e (position_id p))"
  from Cons.prems have fresh: "position_id p \<notin> fst ` set uv" by auto
  have upd: "AList.update (position_id p) ?h uv = uv @ [(position_id p, ?h)]"
    using fresh by (rule update_fresh)
  have disj: "set (map position_id ps) \<inter> fst ` set (uv @ [(position_id p, ?h)]) = {}"
    using Cons.prems by auto
  from Cons.prems have dist: "distinct (map position_id ps)" by simp
  have "userVotes_loop db u e ps (uv @ [(position_id p, ?h)]) =
      ((uv @ [(position_id p, ?h)]) @
         map (\<lambda>p. (position_id p, fst (hasUserVoted db u e (position_id p)))) ps, db)"
    by (rule Cons.IH[OF dist disj])
  then show ?case using upd by (simp add: case_prod_beta hasUserVoted_snd)
qed

lemma election_status_eq:
  assumes "distinct (map position_id (ec_positions el))"
  shows "election_status db (Some u) el =
     (\<lparr>ec_election = ec_election el, ec_club = ec_club el, ec_positions = ec_positions el,
       userVotes = Some (map (\<lambda>p. (position_id p,
            fst (hasUserVoted db (user_id u) (election_id (ec_election el)) (position_id p))))
          (ec_positions el))\<rparr>, db)"
  using userVotes_loop_eq[OF assms, of "[]" db "user_id u" "election_id (ec_election el)"]
  by (simp add: election_status_def)

lemma elections_with_status_eq:
  assumes "\<forall>el \<in> set els. distinct (map position_id (ec_positions el))"
  shows "elections_with_status db (Some u) els =
           (map (\<lambda>el. fst (election_status db (Some u) el)) els, db)"
  using assms
proof (induction els)
  case Nil
  then show ?case by simp
next
  case (Cons el els)
  then have "distinct (map position_id (ec_positions el))" by simp
  from election_status_eq[OF this, of db u] Cons show ?case by simp
qed

lemma active_positions:
  assumes "el \<in> set (getActiveElections db now)"
  shows "ec_positions el = getPositionsByClub db (election_clubId (ec_election el))"
  using assms by (auto simp: getActiveElections_def Let_def)

lemma positions_distinct:
  "primary_keys db \<Longrightarrow> distinct (map position_id (getPositionsByClub db k))"
  by (simp add: primary_keys_def getPositionsByClub_def distinct_map_filter)

lemma status_of_counts:
  "getUserVotingStatus \<lparr>ec_election = e, ec_club = c, ec_positions = ps,
       userVotes = Some (map (\<lambda>p. (position_id p, H (position_id p))) ps)\<rparr> =
     (if length (filter (\<lambda>p. H (position_id p)) ps) = length ps then ''Completed''
      else if length (filter (\<lambda>p. H (position_id p)) ps) > 0 then ''Partial''
      else ''Not Voted'')"
proof -
  have "filter (\<lambda>b. b) (map snd (map (\<lambda>p. (position_id p, H (position_id p))) ps)) =
        map (\<lambda>p. H (position_id p)) (filter (\<lambda>p. H (position_id p)) ps)"
    by (induction ps) auto
  then have "length (filter (\<lambda>b. b) (map snd (map (\<lambda>p. (position_id p, H (position_id p))) ps))) =
        length (filter (\<lambda>p. H (position_id p)) ps)"
    by simp
  then show ?thesis
    by (simp only: getUserVotingStatus_def Let_def election_with_votes.simps
          election_with_club.simps option.case)
qed

lemma voted_set_counts:
  assumes d: "distinct (map position_id ps)"
  shows "(length (filter (\<lambda>p. H (position_id p)) ps) = length ps \<longleftrightarrow>
            {q \<in> position_id ` set ps. H q} = position_id ` set ps) \<and>
         (length (filter (\<lambda>p. H (position_id p)) ps) = 0 \<longleftrightarrow>
            {q \<in> position_id ` set ps. H q} = {}) \<and>
         (length ps = 0 \<longleftrightarrow> position_id ` set ps = {})"
proof -
  let ?P = "position_id ` set ps"
  let ?V = "{q \<in> position_id ` set ps. H q}"
  have cP: "card ?P = length ps"
    using d by (metis distinct_card length_map set_map)
  have Veq: "?V = set (map position_id (filter (\<lambda>p. H (position_id p)) ps))"
    by auto
  have cV: "card ?V = length (filter (\<lambda>p. H (position_id p)) ps)"
    unfolding Veq using distinct_map_filter[OF d, of "\<lambda>p. H (position_id p)"]
    by (metis distinct_card length_map)
  have sub: "?V \<subseteq> ?P" and fin: "finite ?P" by auto
  have 1: "card ?V = card ?P \<longleftrightarrow> ?V = ?P"
    using card_subset_eq[OF fin sub] by auto
  have 2: "card ?V = 0 \<longleftrightarrow> ?V = {}"
    using finite_subset[OF sub fin] by simp
  have 3: "card ?P = 0 \<longleftrightarrow> ?P = {}" using fin by simp
  show ?thesis using 1 2 3 unfolding cP cV by blast
qed

section \<open>Claims\<close>

text \<open>C1 (ballot uniqueness), evaluated on the code.  Alice sends two vote requests for
  the president of the spring election, and the second arrives while the first waits for
  its insert.  Both count queries find no ballot of hers, both inserts go through, and
  both requests are answered with 201: the store then holds two distinct ballots of Alice
  for the same election and position.  (A request that meets no other between its count
  query and its insert keeps the ballots unique: lemma \<open>post_vote_unique\<close>.)\<close>

theorem overlapping_votes_stored_twice:
  "ballots_unique (votes campus) \<and>
   server_run campus
     [Check 1 (vote_for alice ''c2'' ''e1'' ''p1''), Check 2 (vote_for alice ''c3'' ''e1'' ''p1''),
      Insert 1 ''v1'' 100, Insert 2 ''v2'' 101] =
     \<lparr>srv_db = campus\<lparr>votes := [ballot ''v1'' ''u1'' ''c2'' ''e1'' ''p1'' 100,
                                 ballot ''v2'' ''u1'' ''c3'' ''e1'' ''p1'' 101]\<rparr>,
      srv_waiting = [],
      srv_replies = [(1, Created 201 (ballot ''v1'' ''u1'' ''c2'' ''e1'' ''p1'' 100)),
                     (2, Created 201 (ballot ''v2'' ''u1'' ''c3'' ''e1'' ''p1'' 101))]\<rparr> \<and>
   \<not> ballots_unique [ballot ''v1'' ''u1'' ''c2'' ''e1'' ''p1'' 100,
                      ballot ''v2'' ''u1'' ''c3'' ''e1'' ''p1'' 101]"
  by (simp add: server_run_def server_step_def vote_check_def vote_insert_def
        hasUserVoted_def castVote_def insertVoteSchema_parse_def Let_def
        ballots_unique_def vote_key_def campus_defs)

text \<open>C6 (eligibility query).  \<^verbatim>\<open>hasUserVoted\<close> answers true exactly when some
  stored ballot carries the given voter, election and position, and it hands the database
  back unchanged.\<close>

theorem hasUserVoted_exact:
  "hasUserVoted db userId electionId positionId =
     ((\<exists>v \<in> set (votes db). vote_voterId v = userId \<and> vote_electionId v = electionId \<and>
                             vote_positionId v = positionId), db)"
  using hasUserVoted_fst[of db userId electionId positionId]
        hasUserVoted_snd[of db userId electionId positionId]
  by (simp add: prod_eq_iff)

text \<open>C8 (candidate roster).  In a database that satisfies the primary and foreign keys
  of the schema, every answer of \<^verbatim>\<open>getCandidatesByElection\<close>, whatever the order of
  its rows, lists exactly the candidates of that election whose approval flag is true, each
  once; no row of it belongs to another election or is unapproved.\<close>

theorem roster_exact:
  assumes "primary_keys db" and "foreign_keys db"
    and "getCandidatesByElection db e rs"
  shows "mset (map candidate rs) =
           mset (filter (\<lambda>c. candidate_electionId c = e \<and> candidate_isApproved c)
                   (candidates db)) \<and>
         (\<forall>r \<in> set rs.
            candidate r \<in> set (candidates db) \<and> candidate_electionId (candidate r) = e \<and>
            candidate_isApproved (candidate r))"
  using roster_answer[OF assms] by blast

theorem roster_exact_witness:
  "primary_keys campus \<and> foreign_keys campus \<and>
   getCandidatesByElection campus ''e1''
     [roster_row cand_alice alice president, roster_row cand_scribe carol secretary,
      roster_row cand_carol carol president] \<and>
   mset (map candidate
     [roster_row cand_alice alice president, roster_row cand_scribe carol secretary,
      roster_row cand_carol carol president]) =
   mset [cand_carol, cand_alice, cand_scribe]"
proof -
  have "filter (\<lambda>c. candidate_electionId c = ''e1'' \<and> candidate_isApproved c) (candidates campus)
        = [cand_carol, cand_alice, cand_scribe]"
    by (simp add: campus_defs)
  with roster_exact[of campus "''e1''", OF _ _ campus_roster] campus_keys campus_roster
  show ?thesis by simp
qed

text \<open>C4 (order of the tally), as the code has it.  In every answer of
  \<^verbatim>\<open>getElectionResults\<close> the rows are ordered by position name, and rows with the
  same position name by descending vote count.  The query names no further key:
  candidates with equal counts are not ordered by their creation time.\<close>

theorem tally_order:
  assumes "getElectionResults db e rs"
  shows "sorted_wrt tally_before rs"
  using assms by (rule results_sorted)

theorem tally_order_witness:
  "getElectionResults campus_voted ''e1''
     [tally_row cand_bob bob president 1, tally_row cand_carol carol president 1,
      tally_row cand_alice alice president 0, tally_row cand_scribe carol secretary 0] \<and>
   sorted_wrt tally_before
     [tally_row cand_bob bob president 1, tally_row cand_carol carol president 1,
      tally_row cand_alice alice president 0, tally_row cand_scribe carol secretary 0]"
  using tally_order[OF campus_voted_tally] campus_voted_tally by simp

text \<open>Against the claim as written (ties broken by creation order): Bob and Carol run for
  president with one ballot each, and Carol registered before Bob (time 10 against 20).
  The list with Bob's row before Carol's is an answer of the query, whether the table
  holds Bob's row first or Carol's: nothing in the query puts Carol first.\<close>

theorem tally_tie_counterexample:
  "getElectionResults campus_voted ''e1''
     [tally_row cand_bob bob president 1, tally_row cand_carol carol president 1,
      tally_row cand_alice alice president 0, tally_row cand_scribe carol secretary 0] \<and>
   getElectionResults campus_swapped ''e1''
     [tally_row cand_bob bob president 1, tally_row cand_carol carol president 1,
      tally_row cand_alice alice president 0, tally_row cand_scribe carol secretary 0] \<and>
   candidate_positionId cand_bob = candidate_positionId cand_carol \<and>
   candidate_createdAt cand_carol < candidate_createdAt cand_bob"
  using campus_voted_tally campus_swapped_tally by (simp add: campus_defs)

text \<open>C5 (candidates without ballots).  In a database that satisfies the primary and
  foreign keys of the schema, a candidate of the election whom no ballot names has a row,
  with \<^verbatim>\<open>voteCount\<close> 0, in every answer of \<^verbatim>\<open>getElectionResults\<close>; and the
  candidates of the answer's rows are the whole roster of the election, each once, whether
  or not they received votes.\<close>

theorem zero_ballot_candidates_listed:
  assumes "primary_keys db" and "foreign_keys db"
    and "c \<in> set (candidates db)" and "candidate_electionId c = e"
    and "\<forall>v \<in> set (votes db). vote_candidateId v \<noteq> candidate_id c"
    and "getElectionResults db e rs"
  shows "(\<exists>r \<in> set rs. candidate r = c \<and> voteCount r = 0) \<and>
         mset (map candidate rs) =
           mset (filter (\<lambda>c. candidate_electionId c = e) (candidates db))"
proof
  from assms(5) have "getVoteCount db (candidate_id c) = 0"
    by (simp add: getVoteCount_def filter_empty_conv)
  with results_member[OF assms(1-4,6)]
  show "\<exists>r \<in> set rs. candidate r = c \<and> voteCount r = 0" by simp
next
  from assms(6) have "mset rs = mset (results_grouped db e)"
    by (simp add: getElectionResults_def)
  then have "mset (map candidate rs) = mset (map candidate (results_grouped db e))"
    by (metis mset_map)
  then show "mset (map candidate rs) =
           mset (filter (\<lambda>c. candidate_electionId c = e) (candidates db))"
    by (simp only: results_grouped_candidates[OF assms(1,2)])
qed

theorem zero_ballot_candidates_listed_witness:
  "primary_keys campus_voted \<and> foreign_keys campus_voted \<and>
   cand_alice \<in> set (candidates campus_voted) \<and> candidate_electionId cand_alice = ''e1'' \<and>
   getVoteCount campus_voted (candidate_id cand_alice) = 0 \<and>
   getElectionResults campus_voted ''e1''
     [tally_row cand_bob bob president 1, tally_row cand_carol carol president 1,
      tally_row cand_alice alice president 0, tally_row cand_scribe carol secretary 0] \<and>
   (\<exists>r \<in> set [tally_row cand_bob bob president 1, tally_row cand_carol carol president 1,
               tally_row cand_alice alice president 0, tally_row cand_scribe carol secretary 0].
      candidate r = cand_alice \<and> voteCount r = 0)"
proof -
  have 1: "cand_alice \<in> set (candidates campus_voted)" by (simp add: campus_defs)
  have 2: "candidate_electionId cand_alice = ''e1''" by (simp add: campus_defs)
  have 3: "\<forall>v \<in> set (votes campus_voted). vote_candidateId v \<noteq> candidate_id cand_alice"
    by (simp add: campus_defs)
  have 4: "getVoteCount campus_voted (candidate_id cand_alice) = 0"
    by (simp add: getVoteCount_def campus_defs)
  from zero_ballot_candidates_listed[of campus_voted cand_alice "''e1''", OF _ _ 1 2 3 campus_voted_tally]
    campus_voted_keys 1 2 4 campus_voted_tally
  show ?thesis by blast
qed

text \<open>C9 (no approval filter in the tally).  In a database that satisfies the primary and
  foreign keys of the schema, a candidate of the election whose approval flag is false has
  a row in every answer of \<^verbatim>\<open>getElectionResults\<close>, with the number of ballots that
  name the candidate as its count, while no answer of \<^verbatim>\<open>getCandidatesByElection\<close>
  lists the candidate.\<close>

theorem tally_ignores_approval:
  assumes "primary_keys db" and "foreign_keys db"
    and "c \<in> set (candidates db)" and "candidate_electionId c = e"
    and "\<not> candidate_isApproved c"
    and "getElectionResults db e rs" and "getCandidatesByElection db e roster"
  shows "(\<exists>r \<in> set rs. candidate r = c \<and> voteCount r = getVoteCount db (candidate_id c)) \<and>
         c \<notin> set (map candidate roster)"
proof
  show "\<exists>r \<in> set rs. candidate r = c \<and> voteCount r = getVoteCount db (candidate_id c)"
    by (rule results_member[OF assms(1-4,6)])
  show "c \<notin> set (map candidate roster)"
    using assms(5) roster_answer(2)[OF assms(1,2,7)] by auto
qed

theorem tally_ignores_approval_witness:
  "primary_keys campus_voted \<and> foreign_keys campus_voted \<and>
   cand_bob \<in> set (candidates campus_voted) \<and> candidate_electionId cand_bob = ''e1'' \<and>
   \<not> candidate_isApproved cand_bob \<and>
   getElectionResults campus_voted ''e1''
     [tally_row cand_bob bob president 1, tally_row cand_carol carol president 1,
      tally_row cand_alice alice president 0, tally_row cand_scribe carol secretary 0] \<and>
   getCandidatesByElection campus_voted ''e1''
     [roster_row cand_alice alice president, roster_row cand_scribe carol secretary,
      roster_row cand_carol carol president] \<and>
   (\<exists>r \<in> set [tally_row cand_bob bob president 1, tally_row cand_carol carol president 1,
               tally_row cand_alice alice president 0, tally_row cand_scribe carol secretary 0].
      candidate r = cand_bob \<and> voteCount r = 1) \<and>
   cand_bob \<notin> set (map candidate
      [roster_row cand_alice alice president, roster_row cand_scribe carol secretary,
       roster_row cand_carol carol president])"
proof -
  have 1: "cand_bob \<in> set (candidates campus_voted)" by (simp add: campus_defs)
  have 2: "candidate_electionId cand_bob = ''e1''" by (simp add: campus_defs)
  have 3: "\<not> candidate_isApproved cand_bob" by (simp add: campus_defs)
  have 4: "getVoteCount campus_voted (candidate_id cand_bob) = 1"
    by (simp add: getVoteCount_def campus_defs)
  from tally_ignores_approval[of campus_voted cand_bob "''e1''",
         OF _ _ 1 2 3 campus_voted_tally campus_voted_roster]
    campus_voted_keys 1 2 3 4 campus_voted_tally campus_voted_roster
  show ?thesis by auto
qed

text \<open>C10 (liveness never consults the start date).  An election whose activity flag is
  true and whose end date lies after the current time is returned by
  \<^verbatim>\<open>getActiveElections\<close> (its club exists, by the foreign key), and a vote of a
  signed-in user for it, with existing candidate and position, a fresh row id and an unused
  triple, is stored and answered with 201.  Nothing is asked of the start date, which may
  lie in the future; changing it does not change whether the election is live.\<close>

theorem liveness_ignores_startDate:
  assumes "e \<in> set (elections db)" and "election_isActive e" and "now < election_endDate e"
    and "election_clubId e \<in> set (map club_id (clubs db))"
    and "u \<in> set (users db)" and "c \<in> set (map candidate_id (candidates db))"
    and "p \<in> set (map position_id (positions db))"
    and "newId \<notin> set (map vote_id (votes db))"
    and "\<not> (\<exists>v \<in> set (votes db). vote_voterId v = user_id u \<and>
               vote_electionId v = election_id e \<and> vote_positionId v = p)"
  shows "e \<in> ec_election ` set (getActiveElections db now) \<and>
         post_vote db newId now (vote_for u c (election_id e) p) =
           (Created 201 (ballot newId (user_id u) c (election_id e) p now),
            db\<lparr>votes := votes db @ [ballot newId (user_id u) c (election_id e) p now]\<rparr>) \<and>
         (\<forall>s. election_live now (e\<lparr>election_startDate := s\<rparr>) = election_live now e)"
proof (intro conjI)
  from assms(2,3) have "election_live now e" by (simp add: election_live_def)
  with assms(1,4) show "e \<in> ec_election ` set (getActiveElections db now)"
    by (intro active_member)
  from assms(1) have "election_id e \<in> set (map election_id (elections db))" by simp
  with assms(5-9) show "post_vote db newId now (vote_for u c (election_id e) p) =
           (Created 201 (ballot newId (user_id u) c (election_id e) p now),
            db\<lparr>votes := votes db @ [ballot newId (user_id u) c (election_id e) p now]\<rparr>)"
    by (intro post_vote_accepts)
  show "\<forall>s. election_live now (e\<lparr>election_startDate := s\<rparr>) = election_live now e"
    by (simp add: election_live_def)
qed

theorem liveness_ignores_startDate_witness:
  "winter \<in> set (elections campus) \<and> election_isActive winter \<and>
   (100::int) < election_endDate winter \<and> 100 < election_startDate winter \<and>
   winter \<in> ec_election ` set (getActiveElections campus 100) \<and>
   post_vote campus ''v1'' 100 (vote_for alice ''c6'' ''e3'' ''p1'') =
     (Created 201 (ballot ''v1'' ''u1'' ''c6'' ''e3'' ''p1'' 100),
      campus\<lparr>votes := votes campus @ [ballot ''v1'' ''u1'' ''c6'' ''e3'' ''p1'' 100]\<rparr>)"
proof -
  have 1: "winter \<in> set (elections campus)" "election_isActive winter"
    "(100::int) < election_endDate winter" "100 < election_startDate winter"
    "election_clubId winter \<in> set (map club_id (clubs campus))"
    "alice \<in> set (users campus)" "''c6'' \<in> set (map candidate_id (candidates campus))"
    "''p1'' \<in> set (map position_id (positions campus))"
    "''v1'' \<notin> set (map vote_id (votes campus))"
    "\<not> (\<exists>v \<in> set (votes campus). vote_voterId v = user_id alice \<and>
               vote_electionId v = election_id winter \<and> vote_positionId v = ''p1'')"
    by (simp_all add: campus_defs)
  have 2: "election_id winter = ''e3''" "user_id alice = ''u1''" by (simp_all add: campus_defs)
  from liveness_ignores_startDate[OF 1(1,2,3,5,6,7,8,9,10)] 1 2 show ?thesis by simp
qed

text \<open>C2 (votes for an election that is not live), evaluated on the code.  At time 100 the
  autumn election is past its end date (50) and the suspended one has its activity flag
  off.  A vote of Alice for a candidate of either is stored and answered with 201: the
  handler never reads the election.\<close>

theorem vote_accepted_when_closed:
  "\<not> election_live 100 autumn \<and> \<not> election_live 100 suspended \<and>
   post_vote campus ''v1'' 100 (vote_for alice ''c5'' ''e2'' ''p1'') =
     (Created 201 (ballot ''v1'' ''u1'' ''c5'' ''e2'' ''p1'' 100),
      campus\<lparr>votes := [ballot ''v1'' ''u1'' ''c5'' ''e2'' ''p1'' 100]\<rparr>) \<and>
   post_vote campus ''v1'' 100 (vote_for alice ''c7'' ''e5'' ''p2'') =
     (Created 201 (ballot ''v1'' ''u1'' ''c7'' ''e5'' ''p2'' 100),
      campus\<lparr>votes := [ballot ''v1'' ''u1'' ''c7'' ''e5'' ''p2'' 100]\<rparr>)"
  by (simp add: election_live_def post_vote_def hasUserVoted_def castVote_def
        insertVoteSchema_parse_def Let_def campus_defs)

text \<open>C3 (votes for an invalid candidate), evaluated on the code.  Bob's candidacy is not
  approved, yet Alice's vote for it is stored and answered with 201; so is her vote for
  the autumn candidate under the spring election and the secretary position, to which
  that candidate does not belong.  Only a candidate id that matches no row is refused, by
  the foreign key, with the handler's general 500.\<close>

theorem vote_accepted_for_invalid_candidate:
  "\<not> candidate_isApproved cand_bob \<and>
   post_vote campus ''v1'' 100 (vote_for alice (candidate_id cand_bob) ''e1'' ''p1'') =
     (Created 201 (ballot ''v1'' ''u1'' ''c1'' ''e1'' ''p1'' 100),
      campus\<lparr>votes := [ballot ''v1'' ''u1'' ''c1'' ''e1'' ''p1'' 100]\<rparr>) \<and>
   candidate_electionId cand_autumn = ''e2'' \<and> candidate_positionId cand_autumn = ''p1'' \<and>
   post_vote campus ''v1'' 100 (vote_for alice (candidate_id cand_autumn) ''e1'' ''p2'') =
     (Created 201 (ballot ''v1'' ''u1'' ''c5'' ''e1'' ''p2'' 100),
      campus\<lparr>votes := [ballot ''v1'' ''u1'' ''c5'' ''e1'' ''p2'' 100]\<rparr>) \<and>
   post_vote campus ''v1'' 100 (vote_for alice ''c0'' ''e1'' ''p1'') =
     (Message 500 ''Failed to submit vote'', campus)"
  by (simp add: post_vote_def hasUserVoted_def castVote_def
        insertVoteSchema_parse_def Let_def campus_defs)

text \<open>C7 (completion status), as the code has it.  For a signed-in voter and an election
  listed by \<^verbatim>\<open>GET /api/elections/active\<close>, let \<open>P\<close> be the ids of the positions of
  the election's club and \<open>V\<close> those of them for which \<^verbatim>\<open>hasUserVoted\<close> is true.
  Then \<^verbatim>\<open>getUserVotingStatus\<close> is "Completed" exactly when \<open>V = P\<close>, "Not Voted"
  exactly when \<open>V\<close> is empty and \<open>P\<close> is not, and "Partial" exactly when \<open>V\<close> is
  neither empty nor all of \<open>P\<close>.\<close>

theorem completion_status:
  assumes "primary_keys db"
    and "el \<in> set (fst (get_elections_active db now (Some u)))"
  shows "(let P = position_id ` set (getPositionsByClub db (election_clubId (ec_election el)));
              V = {p \<in> P. fst (hasUserVoted db (user_id u) (election_id (ec_election el)) p)}
          in (getUserVotingStatus el = ''Completed'' \<longleftrightarrow> V = P) \<and>
             (getUserVotingStatus el = ''Not Voted'' \<longleftrightarrow> V = {} \<and> P \<noteq> {}) \<and>
             (getUserVotingStatus el = ''Partial'' \<longleftrightarrow> V \<noteq> P \<and> V \<noteq> {}))"
proof -
  have dist: "\<forall>a \<in> set (getActiveElections db now). distinct (map position_id (ec_positions a))"
    using positions_distinct[OF assms(1)] by (simp add: active_positions)
  from assms(2) obtain a where a: "a \<in> set (getActiveElections db now)"
    and el: "el = fst (election_status db (Some u) a)"
    by (auto simp: get_elections_active_def elections_with_status_eq[OF dist])
  let ?ps = "getPositionsByClub db (election_clubId (ec_election a))"
  let ?H = "\<lambda>q. fst (hasUserVoted db (user_id u) (election_id (ec_election a)) q)"
  have ps: "ec_positions a = ?ps" by (rule active_positions[OF a])
  have d: "distinct (map position_id ?ps)" by (rule positions_distinct[OF assms(1)])
  have el': "el = \<lparr>ec_election = ec_election a, ec_club = ec_club a, ec_positions = ?ps,
       userVotes = Some (map (\<lambda>p. (position_id p, ?H (position_id p))) ?ps)\<rparr>"
    using el election_status_eq[of a db u] d ps by simp
  have e: "ec_election el = ec_election a" using el' by simp
  have st: "getUserVotingStatus el =
     (if length (filter (\<lambda>p. ?H (position_id p)) ?ps) = length ?ps then ''Completed''
      else if length (filter (\<lambda>p. ?H (position_id p)) ?ps) > 0 then ''Partial''
      else ''Not Voted'')"
    unfolding el' by (rule status_of_counts)
  from voted_set_counts[OF d, of ?H] show ?thesis
    unfolding Let_def e st by auto
qed

text \<open>The witness is the run of the specification: with the positions President and
  Secretary, Alice's status in the spring election is "Not Voted" before she votes,
  "Partial" after her vote for president, "Completed" after her vote for secretary.\<close>

theorem completion_status_witness:
  "primary_keys campus \<and>
   \<lparr>ec_election = spring, ec_club = chess, ec_positions = [president, secretary],
     userVotes = Some [(''p1'', False), (''p2'', False)]\<rparr>
     \<in> set (fst (get_elections_active campus 100 (Some alice))) \<and>
   {p \<in> position_id ` set (getPositionsByClub campus (election_clubId spring)).
      fst (hasUserVoted campus (user_id alice) (election_id spring) p)} = {} \<and>
   position_id ` set (getPositionsByClub campus (election_clubId spring)) \<noteq> {} \<and>
   map (\<lambda>el. (election_id (ec_election el), getUserVotingStatus el))
     (fst (get_elections_active campus 100 (Some alice))) =
     [(''e1'', ''Not Voted''), (''e4'', ''Completed''), (''e3'', ''Not Voted'')] \<and>
   map (\<lambda>el. (election_id (ec_election el), getUserVotingStatus el))
     (fst (get_elections_active
        (snd (post_vote campus ''v1'' 100 (vote_for alice ''c2'' ''e1'' ''p1'')))
        101 (Some alice))) =
     [(''e1'', ''Partial''), (''e4'', ''Completed''), (''e3'', ''Not Voted'')] \<and>
   map (\<lambda>el. (election_id (ec_election el), getUserVotingStatus el))
     (fst (get_elections_active
        (snd (post_vote (snd (post_vote campus ''v1'' 100 (vote_for alice ''c2'' ''e1'' ''p1'')))
                ''v2'' 101 (vote_for alice ''c4'' ''e1'' ''p2'')))
        102 (Some alice))) =
     [(''e1'', ''Completed''), (''e4'', ''Completed''), (''e3'', ''Not Voted'')]"
proof -
  let ?el = "\<lparr>ec_election = spring, ec_club = chess, ec_positions = [president, secretary],
     userVotes = Some [(''p1'', False), (''p2'', False)]\<rparr>"
  have pk: "primary_keys campus" using campus_keys by simp
  have mem: "?el \<in> set (fst (get_elections_active campus 100 (Some alice)))"
    by code_simp
  have st: "getUserVotingStatus ?el = ''Not Voted''"
    by (simp add: getUserVotingStatus_def)
  have sel: "ec_election ?el = spring" by simp
  from completion_status[OF pk mem] st
  have "{p \<in> position_id ` set (getPositionsByClub campus (election_clubId spring)).
      fst (hasUserVoted campus (user_id alice) (election_id spring) p)} = {} \<and>
   position_id ` set (getPositionsByClub campus (election_clubId spring)) \<noteq> {}"
    unfolding sel Let_def by blast
  moreover have "map (\<lambda>el. (election_id (ec_election el), getUserVotingStatus el))
     (fst (get_elections_active campus 100 (Some alice))) =
     [(''e1'', ''Not Voted''), (''e4'', ''Completed''), (''e3'', ''Not Voted'')]"
    by code_simp
  moreover have "map (\<lambda>el. (election_id (ec_election el), getUserVotingStatus el))
     (fst (get_elections_active
        (snd (post_vote campus ''v1'' 100 (vote_for alice ''c2'' ''e1'' ''p1'')))
        101 (Some alice))) =
     [(''e1'', ''Partial''), (''e4'', ''Completed''), (''e3'', ''Not Voted'')]"
    by code_simp
  moreover have "map (\<lambda>el. (election_id (ec_election el), getUserVotingStatus el))
     (fst (get_elections_active
        (snd (post_vote (snd (post_vote campus ''v1'' 100 (vote_for alice ''c2'' ''e1'' ''p1'')))
                ''v2'' 101 (vote_for alice ''c4'' ''e1'' ''p2'')))
        102 (Some alice))) =
     [(''e1'', ''Completed''), (''e4'', ''Completed''), (''e3'', ''Not Voted'')]"
    by code_simp
  ultimately show ?thesis using pk mem by blast
qed

text \<open>Against the claim as written ("not started" whenever \<open>V\<close> is empty): the drama club
  has no positions, so for its election \<open>P\<close> and \<open>V\<close> are both empty, and the status is
  "Completed", since that test comes first.\<close>

theorem completion_counterexample:
  "getPositionsByClub campus (election_clubId drama_night) = [] \<and>
   map (\<lambda>el. (election_id (ec_election el), getUserVotingStatus el))
     (fst (get_elections_active campus 100 (Some alice))) =
   [(''e1'', ''Not Voted''), (''e4'', ''Completed''), (''e3'', ''Not Voted'')]"
  by code_simp

end
